theory Spec2Isabelle
  imports Complex_Main "HOL-Library.AList"
begin

section \<open>Data model of \<^verbatim>\<open>data/ChargeCycle.py\<close>\<close>

text \<open>
  Timestamps (\<^verbatim>\<open>datetime\<close>) and durations (\<^verbatim>\<open>timedelta\<close>) are integers in one fixed
  unit (seconds in all examples). Python numbers (ints and floats) in sensor columns are
  modelled as exact reals; floating-point rounding is not modelled.

  A database row handed to the cycle extractors is a dict with the columns
  \<^verbatim>\<open>Stamp\<close>, \<^verbatim>\<open>ChargingCurr\<close> and \<^verbatim>\<open>soc_smooth\<close>; \<^verbatim>\<open>extract_cycles_soc\<close>
  adds the key \<^verbatim>\<open>soc_diff\<close> to every row it visits (\<open>None\<close> below: key not yet set).
\<close>

datatype error = AssertionError | ZeroDivisionError | TypeError | ValueError | IndexError

record sample =
  Stamp :: int
  ChargingCurr :: real
  soc_smooth :: real
  soc_diff :: "real option"

text \<open>
  A cycle as the extractors build it: the tuple
  \<^verbatim>\<open>(charge_start, charge_end, charge_sample_count, value)\<close>.
\<close>

type_synonym cycle = "sample \<times> sample \<times> real \<times> real"

section \<open>\<^verbatim>\<open>smooth\<close>\<close>

text \<open>
  \<^verbatim>\<open>smooth\<close> works on any list of dicts and any key, so here a sample is a dict: an
  association list in insertion order, from keys to Python values. A value is \<^verbatim>\<open>None\<close>, a
  number or a timestamp. Assigning \<^verbatim>\<open>sample[k] = v\<close> replaces the value of an existing key
  in place and appends a new key at the end, which is \<open>AList.update\<close>. The function mutates
  the dicts of the list and returns nothing; the model returns the list of updated dicts
  (the dicts of the list are taken to be distinct objects).
\<close>

datatype pyval = PyNone | Num real | DateTime int

type_synonym pydict = "(string \<times> pyval) list"

text \<open>Truth value of a Python value: \<^verbatim>\<open>None\<close> and zero are false.\<close>

fun truthy :: "pyval \<Rightarrow> bool" where
  "truthy PyNone = False"
| "truthy (Num x) = (x \<noteq> 0)"
| "truthy (DateTime t) = True"

text \<open>
  The test \<^verbatim>\<open>d and k in d and d[k]\<close> for a dict (or \<^verbatim>\<open>None\<close>) \<open>d\<close>: it gives the value
  \<^verbatim>\<open>d[k]\<close> when the test holds, and \<open>None\<close> when it fails.
\<close>

definition truthy_item :: "pydict option \<Rightarrow> string \<Rightarrow> pyval option" where
  "truthy_item d k =
     (case d of
        None \<Rightarrow> None
      | Some m \<Rightarrow>
          if m = [] then None
          else (case map_of m k of
                  None \<Rightarrow> None
                | Some v \<Rightarrow> if truthy v then Some v else None))"

text \<open>A float times a Python value; only numbers can be multiplied.\<close>

definition py_mul :: "real \<Rightarrow> pyval \<Rightarrow> error + real" where
  "py_mul a v = (case v of Num x \<Rightarrow> Inr (a * x) | _ \<Rightarrow> Inl TypeError)"

text \<open>The body of the loop of \<^verbatim>\<open>smooth\<close>, with its four branches in the source's order.\<close>

definition smooth_sample ::
    "string \<Rightarrow> string \<Rightarrow> real \<Rightarrow> pyval \<Rightarrow> pydict option \<Rightarrow> pydict \<Rightarrow> error + pydict" where
  "smooth_sample label label_smooth alpha default_value last_sample sample =
     (case truthy_item (Some sample) label of
        None \<Rightarrow>
          (case truthy_item last_sample label_smooth of
             None \<Rightarrow> Inr (AList.update label_smooth default_value sample)
           | Some u \<Rightarrow> Inr (AList.update label_smooth u sample))
      | Some v \<Rightarrow>
          (case truthy_item last_sample label_smooth of
             None \<Rightarrow> Inr (AList.update label_smooth v sample)
           | Some u \<Rightarrow>
               (case py_mul alpha u of
                  Inl e \<Rightarrow> Inl e
                | Inr a \<Rightarrow>
                    (case py_mul (1 - alpha) v of
                       Inl e \<Rightarrow> Inl e
                     | Inr b \<Rightarrow> Inr (AList.update label_smooth (Num (a + b)) sample)))))"

fun smooth_loop ::
    "string \<Rightarrow> string \<Rightarrow> real \<Rightarrow> pyval \<Rightarrow> pydict option \<Rightarrow> pydict list \<Rightarrow> error + pydict list" where
  "smooth_loop label label_smooth alpha default_value last_sample [] = Inr []"
| "smooth_loop label label_smooth alpha default_value last_sample (sample # samples) =
     (case smooth_sample label label_smooth alpha default_value last_sample sample of
        Inl e \<Rightarrow> Inl e
      | Inr sample' \<Rightarrow>
          (case smooth_loop label label_smooth alpha default_value (Some sample') samples of
             Inl e \<Rightarrow> Inl e
           | Inr out \<Rightarrow> Inr (sample' # out)))"

text \<open>
  \<^verbatim>\<open>smooth(samples, label, label_smooth=None, alpha=.95, default_value=None)\<close>: a missing or
  empty \<^verbatim>\<open>label_smooth\<close> becomes \<^verbatim>\<open>label + '_smooth'\<close>.
\<close>

definition smooth ::
    "pydict list \<Rightarrow> string \<Rightarrow> string option \<Rightarrow> real \<Rightarrow> pyval \<Rightarrow> error + pydict list" where
  "smooth samples label label_smooth alpha default_value =
     (let ls = (case label_smooth of
                  None \<Rightarrow> label @ ''_smooth''
                | Some l \<Rightarrow> if l = [] then label @ ''_smooth'' else l)
      in smooth_loop label ls alpha default_value None samples)"

section \<open>The smoother with a staleness window\<close>

text \<open>
  \<^verbatim>\<open>webike/Preprocess.py\<close> smooths with
  \<^verbatim>\<open>smooth(samples, charge_attr, is_valid=smooth_reset_stale(timedelta(minutes=5)))\<close>, imported
  from \<^verbatim>\<open>webike.util.Utils\<close>. That module is not among the sources; the \<^verbatim>\<open>smooth\<close> of
  \<^verbatim>\<open>data/ChargeCycle.py\<close> above has no \<^verbatim>\<open>is_valid\<close> parameter. A sample is here its
  timestamp and the raw value of the attribute (\<open>None\<close>: absent), and the result is the
  list of derived values, one per sample.
\<close>

text \<open>
  Modelled from the spec: \<^verbatim>\<open>smooth_reset_stale\<close> of \<^verbatim>\<open>webike.util.Utils\<close>, which is
  missing from the sources. The prior sample is stale when ``its timestamp gap from the
  current sample exceeds a configured staleness window''; the predicate says that the prior
  sample is still valid.
\<close>

definition smooth_reset_stale :: "int \<Rightarrow> int \<Rightarrow> int \<Rightarrow> bool" where
  "smooth_reset_stale window prev_stamp stamp = (\<not> stamp - prev_stamp > window)"

text \<open>
  Modelled from the spec: the derived value \<open>v'\<close> of one sample in \<^verbatim>\<open>smooth\<close> of
  \<^verbatim>\<open>webike.util.Utils\<close>, which is missing from the sources. \<open>prev\<close> is the prior sample's
  timestamp and smoothed value, if there is a prior sample. A raw value that is present is
  taken as it is when no prior smoothed value exists or the prior sample is stale, and
  otherwise gives \<open>alpha * v'_prev + (1 - alpha) * v_raw\<close>; an absent raw value carries the
  previous smoothed value forward, subject to the same staleness rule, or gives the default.
\<close>

definition utils_smooth_value ::
    "real \<Rightarrow> real option \<Rightarrow> int \<Rightarrow> (int \<times> real option) option \<Rightarrow> int \<Rightarrow> real option
      \<Rightarrow> real option" where
  "utils_smooth_value alpha default_value window prev stamp raw =
     (let valid_prev = (case prev of
                          None \<Rightarrow> None
                        | Some (prev_stamp, prev_smooth) \<Rightarrow>
                            if smooth_reset_stale window prev_stamp stamp then prev_smooth
                            else None)
      in case raw of
           Some v \<Rightarrow>
             (case valid_prev of
                None \<Rightarrow> Some v
              | Some u \<Rightarrow> Some (alpha * u + (1 - alpha) * v))
         | None \<Rightarrow>
             (case valid_prev of
                None \<Rightarrow> default_value
              | Some u \<Rightarrow> Some u))"

text \<open>
  Modelled from the spec: the single forward pass of \<^verbatim>\<open>smooth\<close> of \<^verbatim>\<open>webike.util.Utils\<close>,
  which is missing from the sources. Each sample becomes the prior sample of the next.
\<close>

fun utils_smooth_loop ::
    "real \<Rightarrow> real option \<Rightarrow> int \<Rightarrow> (int \<times> real option) option \<Rightarrow> (int \<times> real option) list
      \<Rightarrow> real option list" where
  "utils_smooth_loop alpha default_value window prev [] = []"
| "utils_smooth_loop alpha default_value window prev ((stamp, raw) # samples) =
     (let v' = utils_smooth_value alpha default_value window prev stamp raw
      in v' # utils_smooth_loop alpha default_value window (Some (stamp, v')) samples)"

text \<open>
  Modelled from the spec: \<^verbatim>\<open>smooth\<close> of \<^verbatim>\<open>webike.util.Utils\<close> with
  \<^verbatim>\<open>is_valid=smooth_reset_stale(window)\<close>, which is missing from the sources. The pass starts
  with no prior sample.
\<close>

definition utils_smooth ::
    "real \<Rightarrow> real option \<Rightarrow> int \<Rightarrow> (int \<times> real option) list \<Rightarrow> real option list" where
  "utils_smooth alpha default_value window samples =
     utils_smooth_loop alpha default_value window None samples"

section \<open>\<^verbatim>\<open>can_merge\<close>\<close>

text \<open>
  \<^verbatim>\<open>can_merge(last_cycle, new_cycle, merge_within)\<close> reads only \<^verbatim>\<open>[0]['Stamp']\<close> and
  \<^verbatim>\<open>[1]['Stamp']\<close> of its two tuple arguments, so the model takes the pair of the first two
  components of each. The failing \<^verbatim>\<open>assert\<close> is the result \<open>Inl AssertionError\<close>.
\<close>

definition can_merge :: "sample \<times> sample \<Rightarrow> sample \<times> sample \<Rightarrow> int \<Rightarrow> error + bool" where
  "can_merge last_cycle new_cycle merge_within =
     (let last_start = Stamp (fst last_cycle);
          last_end = Stamp (snd last_cycle);
          new_start = Stamp (fst new_cycle);
          new_end = Stamp (snd new_cycle)
      in if max last_start new_start \<le> min last_end new_end then Inr True
         else let gap = new_start - last_end
              in if \<not> gap > 0 then Inl AssertionError
                 else if gap > merge_within then Inr False
                 else if new_end - new_start < gap then Inr False
                 else if last_end - last_start < gap then Inr False
                 else Inr True)"

text \<open>
  The first branch of \<^verbatim>\<open>can_merge\<close>: when \<^verbatim>\<open>last_cycle\<close> is a list (not a tuple), an
  empty list gives \<^verbatim>\<open>False\<close> and otherwise its last element is used.
\<close>

definition can_merge_seq :: "cycle list \<Rightarrow> sample \<times> sample \<Rightarrow> int \<Rightarrow> error + bool" where
  "can_merge_seq last_cycles new_cycle merge_within =
     (if length last_cycles < 1 then Inr False
      else case last last_cycles of (s, e, n, v) \<Rightarrow> can_merge (s, e) new_cycle merge_within)"

section \<open>\<^verbatim>\<open>merge_cycles\<close>\<close>

text \<open>
  \<^verbatim>\<open>preprocess_cycles\<close> tags every extracted cycle with a one-character type before it
  calls \<^verbatim>\<open>merge_cycles\<close>: \<^verbatim>\<open>(s, e, x, y, 'A')\<close>. The list \<^verbatim>\<open>merged\<close> then holds two
  shapes of tuple: an input cycle as it came, or the new tuple
  \<^verbatim>\<open>(start_time, end_time, sample_count, thresh_value, 'M')\<close> whose first two components are
  timestamps, not rows.
\<close>

type_synonym tagged_cycle = "sample \<times> sample \<times> real \<times> real \<times> char"

datatype merged_cycle =
    Unmerged tagged_cycle
  | Merged int int real int char

text \<open>The body of the first loop after \<^verbatim>\<open>first\<close> and \<^verbatim>\<open>second\<close> are chosen.\<close>

definition merge_pair :: "tagged_cycle \<Rightarrow> tagged_cycle \<Rightarrow> int \<Rightarrow> error + merged_cycle" where
  "merge_pair first second merge_within =
     (case first of (f0, f1, f2, f3, f4) \<Rightarrow>
      case second of (s0, s1, s2, s3, s4) \<Rightarrow>
        (case can_merge (f0, f1) (s0, s1) merge_within of
           Inl e \<Rightarrow> Inl e
         | Inr ok \<Rightarrow>
             if ok then
               (let start_time = Stamp f0;
                    end_time = Stamp s1;
                    sample_count = f2 + s2;
                    thresh_value = Stamp s0 - Stamp f1
                in Inr (Merged start_time end_time sample_count thresh_value CHR ''M''))
             else Inr (Unmerged first)))"

text \<open>
  The cursors \<^verbatim>\<open>a\<close> and \<^verbatim>\<open>b\<close> are the two remaining suffixes, and writing
  \<^verbatim>\<open>merged[m]\<close> followed by \<^verbatim>\<open>m += 1\<close> is consing onto the result. Each round of the
  first loop advances exactly one cursor: the one \<^verbatim>\<open>first\<close> was taken from. The two
  trailing loops copy what is left of either list.
\<close>

fun merge_cycles :: "tagged_cycle list \<Rightarrow> tagged_cycle list \<Rightarrow> int \<Rightarrow> error + merged_cycle list" where
  "merge_cycles (ca # cycles_a) (cb # cycles_b) merge_within =
     (if Stamp (fst ca) < Stamp (fst cb) then
        (case merge_pair ca cb merge_within of
           Inl e \<Rightarrow> Inl e
         | Inr c \<Rightarrow>
             (case merge_cycles cycles_a (cb # cycles_b) merge_within of
                Inl e \<Rightarrow> Inl e
              | Inr merged \<Rightarrow> Inr (c # merged)))
      else
        (case merge_pair cb ca merge_within of
           Inl e \<Rightarrow> Inl e
         | Inr c \<Rightarrow>
             (case merge_cycles (ca # cycles_a) cycles_b merge_within of
                Inl e \<Rightarrow> Inl e
              | Inr merged \<Rightarrow> Inr (c # merged))))"
| "merge_cycles [] cycles_b merge_within = Inr (map Unmerged cycles_b)"
| "merge_cycles cycles_a [] merge_within = Inr (map Unmerged cycles_a)"

text \<open>
  What \<^verbatim>\<open>preprocess_cycles\<close> reads of an element of the merged list: its sample count
  \<^verbatim>\<open>cycle[2]\<close>, and the two timestamps that bound it.
\<close>

fun sample_count :: "merged_cycle \<Rightarrow> real" where
  "sample_count (Unmerged (s, e, n, v, t)) = n"
| "sample_count (Merged start_time end_time n gap t) = n"

fun start_time :: "merged_cycle \<Rightarrow> int" where
  "start_time (Unmerged (s, e, n, v, t)) = Stamp s"
| "start_time (Merged st en n gap t) = st"

fun end_time :: "merged_cycle \<Rightarrow> int" where
  "end_time (Unmerged (s, e, n, v, t)) = Stamp e"
| "end_time (Merged st en n gap t) = en"

text \<open>Adjacent elements do not overlap: each ends no later than the next starts.\<close>

fun non_overlapping :: "merged_cycle list \<Rightarrow> bool" where
  "non_overlapping (c1 # c2 # cs) = (end_time c1 \<le> start_time c2 \<and> non_overlapping (c2 # cs))"
| "non_overlapping cs = True"

text \<open>
  Example inputs: a row at time \<open>t\<close>, and the tagged cycle from \<open>t1\<close> to \<open>t2\<close> with
  \<open>n\<close> samples.
\<close>

definition row_at :: "int \<Rightarrow> sample" where
  "row_at t = \<lparr>Stamp = t, ChargingCurr = 0, soc_smooth = 0, soc_diff = None\<rparr>"

definition interval :: "int \<Rightarrow> int \<Rightarrow> real \<Rightarrow> char \<Rightarrow> tagged_cycle" where
  "interval t1 t2 n tag = (row_at t1, row_at t2, n, 0, tag)"

section \<open>\<^verbatim>\<open>extract_cycles_curr\<close>\<close>

text \<open>
  The keyword parameters the two extractors share, and the loop variables they share.
  \<^verbatim>\<open>charge_start\<close>, \<^verbatim>\<open>charge_end\<close> and \<^verbatim>\<open>last_sample\<close> are \<^verbatim>\<open>None\<close> or a row; a row
  is a non-empty dict, so \<^verbatim>\<open>if not charge_start\<close> and \<^verbatim>\<open>if charge_end\<close> test for
  \<^verbatim>\<open>None\<close>. Sample counts are reals because \<^verbatim>\<open>extract_cycles_soc\<close> can store a
  non-integer in that position of a cycle.
\<close>

record params =
  charge_thresh_start :: real
  charge_thresh_end :: real
  min_charge_samples :: real
  min_charge_amount :: real
  max_sample_delay :: int
  min_charge_time :: int

record state =
  cycles :: "cycle list"
  discarded_cycles :: "cycle list"
  charge_start :: "sample option"
  charge_end :: "sample option"
  charge_sample_count :: real
  last_sample :: "sample option"

record curr_state = state +
  charge_avg_curr :: real

definition curr_init :: curr_state where
  "curr_init = \<lparr>cycles = [], discarded_cycles = [], charge_start = None, charge_end = None,
                 charge_sample_count = 0, last_sample = None, charge_avg_curr = 0\<rparr>"

text \<open>
  ``Did charging stop?'': the \<^verbatim>\<open>if / elif / else\<close> of the charging branch. Reading
  \<^verbatim>\<open>last_sample['Stamp']\<close> of \<^verbatim>\<open>None\<close> is a \<^verbatim>\<open>TypeError\<close>.
\<close>

definition curr_stop :: "'a params_scheme \<Rightarrow> curr_state \<Rightarrow> sample \<Rightarrow> error + curr_state" where
  "curr_stop p st sample =
     (if ChargingCurr sample < charge_thresh_end p then
        Inr (st\<lparr>charge_end := last_sample st\<rparr>)
      else case last_sample st of
        None \<Rightarrow> Inl TypeError
      | Some ls \<Rightarrow>
          if Stamp sample - Stamp ls > max_sample_delay p then
            Inr (st\<lparr>charge_end := last_sample st\<rparr>)
          else
            Inr (st\<lparr>charge_sample_count := charge_sample_count st + 1,
                     charge_avg_curr := (charge_avg_curr st + ChargingCurr sample) / 2\<rparr>))"

text \<open>The block under \<^verbatim>\<open>if charge_end:\<close>, for the open cycle's start \<open>cs\<close>.\<close>

definition curr_close :: "'a params_scheme \<Rightarrow> sample \<Rightarrow> curr_state \<Rightarrow> curr_state" where
  "curr_close p cs st =
     (case charge_end st of
        None \<Rightarrow> st
      | Some ce \<Rightarrow>
          (let cycle = (cs, ce, charge_sample_count st, charge_avg_curr st);
               st' = (if Stamp ce - Stamp cs > min_charge_time p
                         \<and> charge_sample_count st > min_charge_samples p
                         \<and> soc_smooth ce - soc_smooth cs > min_charge_amount p
                      then st\<lparr>cycles := cycles st @ [cycle]\<rparr>
                      else st\<lparr>discarded_cycles := discarded_cycles st @ [cycle]\<rparr>)
           in st'\<lparr>charge_start := None, charge_end := None,
                  charge_sample_count := 0, charge_avg_curr := 0\<rparr>))"

text \<open>One round of the \<^verbatim>\<open>for sample in charge_samples\<close> loop.\<close>

definition curr_step :: "'a params_scheme \<Rightarrow> curr_state \<Rightarrow> sample \<Rightarrow> error + curr_state" where
  "curr_step p st sample =
     (case charge_start st of
        None \<Rightarrow>
          Inr ((if ChargingCurr sample > charge_thresh_start p
                then st\<lparr>charge_start := Some sample, charge_sample_count := 1,
                        charge_avg_curr := ChargingCurr sample\<rparr>
                else st)\<lparr>last_sample := Some sample\<rparr>)
      | Some cs \<Rightarrow>
          (case curr_stop p st sample of
             Inl e \<Rightarrow> Inl e
           | Inr st1 \<Rightarrow> Inr ((curr_close p cs st1)\<lparr>last_sample := Some sample\<rparr>)))"

fun curr_loop :: "'a params_scheme \<Rightarrow> curr_state \<Rightarrow> sample list \<Rightarrow> error + curr_state" where
  "curr_loop p st [] = Inr st"
| "curr_loop p st (sample # charge_samples) =
     (case curr_step p st sample of
        Inl e \<Rightarrow> Inl e
      | Inr st' \<Rightarrow> curr_loop p st' charge_samples)"

definition extract_cycles_curr :: "'a params_scheme \<Rightarrow> sample list \<Rightarrow> error + cycle list \<times> cycle list" where
  "extract_cycles_curr p charge_samples =
     (case curr_loop p curr_init charge_samples of
        Inl e \<Rightarrow> Inl e
      | Inr st \<Rightarrow> Inr (cycles st, discarded_cycles st))"

text \<open>
  Example input: a row with a timestamp, a charging current and a smoothed state of charge.
\<close>

definition row :: "int \<Rightarrow> real \<Rightarrow> real \<Rightarrow> sample" where
  "row t c s = \<lparr>Stamp = t, ChargingCurr = c, soc_smooth = s, soc_diff = None\<rparr>"

section \<open>\<^verbatim>\<open>extract_cycles_soc\<close>\<close>

record soc_params = params +
  derivate_span :: int
  merge_within :: int

record soc_state = state +
  soc_history :: "real list"

definition soc_init :: soc_state where
  "soc_init = \<lparr>cycles = [], discarded_cycles = [], charge_start = None, charge_end = None,
                charge_sample_count = 0, last_sample = None, soc_history = []\<rparr>"

text \<open>
  \<^verbatim>\<open>collections.deque(maxlen=n)\<close>: \<^verbatim>\<open>append\<close> adds on the right and, when the deque is then
  longer than \<^verbatim>\<open>maxlen\<close>, drops the leftmost element. Constructing a deque with a negative
  \<^verbatim>\<open>maxlen\<close> raises \<^verbatim>\<open>ValueError\<close> (in \<open>extract_cycles_soc\<close> below).
\<close>

definition deque_append :: "int \<Rightarrow> real list \<Rightarrow> real \<Rightarrow> real list" where
  "deque_append maxlen d x =
     (let d' = d @ [x] in if int (length d') > maxlen then tl d' else d')"

text \<open>\<^verbatim>\<open>sum(xs) / len(xs)\<close>: dividing by a length of zero raises.\<close>

definition avg :: "real list \<Rightarrow> error + real" where
  "avg xs = (if length xs = 0 then Inl ZeroDivisionError
             else Inr (sum_list xs / real (length xs)))"

text \<open>
  The value stored in \<^verbatim>\<open>sample['soc_diff']\<close>, from the window \<open>h\<close> after the append.
  \<^verbatim>\<open>h[0:l // 2]\<close> is \<open>take (l div 2) h\<close>, and \<^verbatim>\<open>h[l // 2:l]\<close> is \<open>drop (l div 2) h\<close>.
\<close>

definition soc_derivative :: "int \<Rightarrow> real list \<Rightarrow> error + real" where
  "soc_derivative maxlen h =
     (let l = length h in
      if int l \<ge> maxlen then
        (case avg (take (l div 2) h) of
           Inl e \<Rightarrow> Inl e
         | Inr old_avg \<Rightarrow>
             (case avg (drop (l div 2) h) of
                Inl e \<Rightarrow> Inl e
              | Inr new_avg \<Rightarrow> Inr (new_avg - old_avg)))
      else Inr 0)"

text \<open>
  ``Did charging stop?'' in the SoC extractor; \<open>sample\<close> already carries its
  \<^verbatim>\<open>soc_diff\<close>, passed as \<open>d\<close>. The first branch closes at \<^verbatim>\<open>sample\<close>, the second at
  \<^verbatim>\<open>last_sample\<close>.
\<close>

definition soc_stop :: "'a soc_params_scheme \<Rightarrow> soc_state \<Rightarrow> sample \<Rightarrow> real \<Rightarrow> error + soc_state" where
  "soc_stop p st sample d =
     (if d < charge_thresh_end p then
        Inr (st\<lparr>charge_end := Some sample\<rparr>)
      else case last_sample st of
        None \<Rightarrow> Inl TypeError
      | Some ls \<Rightarrow>
          if Stamp sample - Stamp ls > max_sample_delay p then
            Inr (st\<lparr>charge_end := last_sample st\<rparr>)
          else
            Inr (st\<lparr>charge_sample_count := charge_sample_count st + 1\<rparr>))"

text \<open>
  The block under \<^verbatim>\<open>if charge_end:\<close>, in its parts. \<^verbatim>\<open>cycles[-1]\<close> of an empty list
  is an \<^verbatim>\<open>IndexError\<close>.

  Merging into the accepted tail: the tuple written back to \<^verbatim>\<open>cycles[-1]\<close> takes its third
  component from \<^verbatim>\<open>cycles[-1][3] + charge_sample_count\<close>.
\<close>

definition soc_extend_tail :: "soc_state \<Rightarrow> sample \<Rightarrow> error + soc_state" where
  "soc_extend_tail st ce =
     (case cycles st of
        [] \<Rightarrow> Inl IndexError
      | _ # _ \<Rightarrow>
          (case last (cycles st) of (t0, t1, t2, t3) \<Rightarrow>
             (let charge_amount = soc_smooth ce - soc_smooth t0
              in Inr (st\<lparr>cycles := butlast (cycles st)
                             @ [(t0, ce, t3 + charge_sample_count st, charge_amount)]\<rparr>))))"

text \<open>
  Merging with the discarded tail: \<^verbatim>\<open>charge_start\<close> becomes the tail's start, its sample
  count \<^verbatim>\<open>discarded_cycles[-1][2]\<close> is added, and the tail is deleted. The new
  \<^verbatim>\<open>charge_start\<close> is returned beside the state.
\<close>

definition soc_absorb_discarded :: "sample \<Rightarrow> soc_state \<Rightarrow> error + sample \<times> soc_state" where
  "soc_absorb_discarded cs st =
     (case discarded_cycles st of
        [] \<Rightarrow> Inl IndexError
      | _ # _ \<Rightarrow>
          (case last (discarded_cycles st) of (d0, d1, d2, d3) \<Rightarrow>
             Inr (d0, st\<lparr>charge_sample_count := charge_sample_count st + d2,
                         discarded_cycles := butlast (discarded_cycles st)\<rparr>)))"

text \<open>Accepting or discarding the cycle from \<open>cs\<close> to \<open>ce\<close>.\<close>

definition soc_emit :: "'a soc_params_scheme \<Rightarrow> sample \<Rightarrow> sample \<Rightarrow> soc_state \<Rightarrow> soc_state" where
  "soc_emit p cs ce st =
     (let cycle = (cs, ce, charge_sample_count st, soc_smooth ce - soc_smooth cs)
      in if Stamp ce - Stamp cs > min_charge_time p
            \<and> charge_sample_count st > min_charge_samples p
            \<and> soc_smooth ce - soc_smooth cs > min_charge_amount p
         then st\<lparr>cycles := cycles st @ [cycle]\<rparr>
         else st\<lparr>discarded_cycles := discarded_cycles st @ [cycle]\<rparr>)"

definition soc_reset :: "soc_state \<Rightarrow> soc_state" where
  "soc_reset st = st\<lparr>charge_start := None, charge_end := None, charge_sample_count := 0\<rparr>"

definition soc_close :: "'a soc_params_scheme \<Rightarrow> sample \<Rightarrow> soc_state \<Rightarrow> error + soc_state" where
  "soc_close p cs st =
     (case charge_end st of
        None \<Rightarrow> Inr st
      | Some ce \<Rightarrow>
          (case can_merge_seq (cycles st) (cs, ce) (merge_within p) of
             Inl e \<Rightarrow> Inl e
           | Inr m \<Rightarrow>
               if m then
                 (case soc_extend_tail st ce of
                    Inl e \<Rightarrow> Inl e
                  | Inr st1 \<Rightarrow> Inr (soc_reset st1))
               else
                 (case can_merge_seq (discarded_cycles st) (cs, ce) (merge_within p) of
                    Inl e \<Rightarrow> Inl e
                  | Inr md \<Rightarrow>
                      (case (if md then soc_absorb_discarded cs st else Inr (cs, st)) of
                         Inl e \<Rightarrow> Inl e
                       | Inr (cs', st1) \<Rightarrow> Inr (soc_reset (soc_emit p cs' ce st1))))))"

text \<open>
  One round of the loop: extend the window, store \<^verbatim>\<open>soc_diff\<close> in the row, then run the
  two-state machine on the row.
\<close>

definition soc_step :: "'a soc_params_scheme \<Rightarrow> soc_state \<Rightarrow> sample \<Rightarrow> error + soc_state" where
  "soc_step p st sample0 =
     (let h = deque_append (derivate_span p) (soc_history st) (soc_smooth sample0) in
      case soc_derivative (derivate_span p) h of
        Inl e \<Rightarrow> Inl e
      | Inr d \<Rightarrow>
          (let sample = sample0\<lparr>soc_diff := Some d\<rparr>;
               st0 = st\<lparr>soc_history := h\<rparr>
           in case charge_start st0 of
                None \<Rightarrow>
                  Inr ((if d > charge_thresh_start p
                        then st0\<lparr>charge_start := Some sample, charge_sample_count := 1\<rparr>
                        else st0)\<lparr>last_sample := Some sample\<rparr>)
              | Some cs \<Rightarrow>
                  (case soc_stop p st0 sample d of
                     Inl e \<Rightarrow> Inl e
                   | Inr st1 \<Rightarrow>
                       (case soc_close p cs st1 of
                          Inl e \<Rightarrow> Inl e
                        | Inr st2 \<Rightarrow> Inr (st2\<lparr>last_sample := Some sample\<rparr>)))))"

fun soc_loop :: "'a soc_params_scheme \<Rightarrow> soc_state \<Rightarrow> sample list \<Rightarrow> error + soc_state" where
  "soc_loop p st [] = Inr st"
| "soc_loop p st (sample # charge_samples) =
     (case soc_step p st sample of
        Inl e \<Rightarrow> Inl e
      | Inr st' \<Rightarrow> soc_loop p st' charge_samples)"

definition extract_cycles_soc :: "'a soc_params_scheme \<Rightarrow> sample list \<Rightarrow> error + cycle list \<times> cycle list" where
  "extract_cycles_soc p charge_samples =
     (if derivate_span p < 0 then Inl ValueError
      else case soc_loop p soc_init charge_samples of
        Inl e \<Rightarrow> Inl e
      | Inr st \<Rightarrow> Inr (cycles st, discarded_cycles st))"

text \<open>Example input: a row after the SoC extractor has stored \<^verbatim>\<open>soc_diff\<close> in it.\<close>

definition row_diff :: "int \<Rightarrow> real \<Rightarrow> real \<Rightarrow> real \<Rightarrow> sample" where
  "row_diff t c s d = \<lparr>Stamp = t, ChargingCurr = c, soc_smooth = s, soc_diff = Some d\<rparr>"

text \<open>
  The end of a cycle, \<^verbatim>\<open>cycle[1]\<close>; and the derivative estimate in the words of the
  extractor's comment: zero while the window holds fewer than \<open>n\<close> values, otherwise the
  average of the second half of the window minus the average of the first half.
\<close>

definition cycle_end :: "cycle \<Rightarrow> sample" where
  "cycle_end c = fst (snd c)"

definition window_diff :: "int \<Rightarrow> real list \<Rightarrow> real" where
  "window_diff n h =
     (if int (length h) < n then 0
      else sum_list (drop (length h div 2) h) / real (length (drop (length h div 2) h))
         - sum_list (take (length h div 2) h) / real (length (take (length h div 2) h)))"

text \<open>
  Example parameters (window of two values, thresholds of one eighth), and the state of the
  SoC extractor in the middle of a charge that began at time 60 and was last sampled at
  time 120.
\<close>

definition soc_example_params :: soc_params where
  "soc_example_params =
     \<lparr>charge_thresh_start = 1 / 8, charge_thresh_end = 1 / 8, min_charge_samples = 1,
      min_charge_amount = 1 / 8, max_sample_delay = 600, min_charge_time = 60,
      derivate_span = 2, merge_within = 1800\<rparr>"

definition soc_example_charging :: soc_state where
  "soc_example_charging =
     \<lparr>cycles = [], discarded_cycles = [],
      charge_start = Some (row_diff 60 0 (1 / 4) (1 / 4)), charge_end = None,
      charge_sample_count = 2, last_sample = Some (row_diff 120 0 (1 / 2) (1 / 4)),
      soc_history = [1 / 4, 1 / 2]\<rparr>"

definition curr_example_charging :: curr_state where
  "curr_example_charging =
     \<lparr>cycles = [], discarded_cycles = [],
      charge_start = Some (row 120 55 0), charge_end = None,
      charge_sample_count = 2, last_sample = Some (row 180 60 0),
      charge_avg_curr = 115 / 2\<rparr>"

section \<open>Properties of \<^verbatim>\<open>can_merge\<close>\<close>

text \<open>
  Claim C8. For every pair of intervals: if they overlap (the larger start is at most the
  smaller end) the result is true; otherwise, with \<open>mw\<close> the merge window and \<open>gap\<close>
  the second start minus the first end, a gap that is not strictly positive fails with the
  assertion error, and a positive gap gives true exactly when \<open>gap \<le> mw\<close> and both
  durations are at least the gap.
\<close>

theorem can_merge_spec:
  "can_merge (ls, le) (ns, ne) mw =
     (if max (Stamp ls) (Stamp ns) \<le> min (Stamp le) (Stamp ne) then Inr True
      else if Stamp ns - Stamp le \<le> 0 then Inl AssertionError
      else Inr (Stamp ns - Stamp le \<le> mw
                \<and> Stamp ns - Stamp le \<le> Stamp ne - Stamp ns
                \<and> Stamp ns - Stamp le \<le> Stamp le - Stamp ls))"
  by (simp add: can_merge_def Let_def)

section \<open>Properties of \<^verbatim>\<open>merge_cycles\<close>\<close>

lemma interval_simps:
  "Stamp (fst (interval t1 t2 n tag)) = t1"
  "start_time (Unmerged (interval t1 t2 n tag)) = t1"
  "end_time (Unmerged (interval t1 t2 n tag)) = t2"
  "sample_count (Unmerged (interval t1 t2 n tag)) = n"
  by (simp_all add: interval_def row_at_def)

lemma merge_pair_10_20_25_40:
  "merge_pair (interval 10 20 3 CHR ''A'') (interval 25 40 4 CHR ''S'') 10
     = Inr (Merged 10 40 7 5 CHR ''M'')"
  "merge_pair (interval 10 20 3 CHR ''A'') (interval 25 40 4 CHR ''S'') 2
     = Inr (Unmerged (interval 10 20 3 CHR ''A''))"
  by (simp_all add: merge_pair_def interval_def can_merge_def row_at_def)

text \<open>
  Claim C3. The concrete merger scenario, evaluated on the code. With
  \<open>merge_within = 10\<close> the intervals \<open>(10,20)\<close> and \<open>(25,40)\<close> do merge into \<open>(10,40)\<close>, but
  only the cursor of the first list advances, so \<open>(25,40)\<close> is still copied out by the
  trailing loop: the result has two elements, not one. With \<open>merge_within = 2\<close> the result is
  the two intervals unchanged.
\<close>

theorem merge_cycles_scenario:
  "merge_cycles [interval 10 20 3 CHR ''A''] [interval 25 40 4 CHR ''S''] 10
     = Inr [Merged 10 40 7 5 CHR ''M'', Unmerged (interval 25 40 4 CHR ''S'')]
   \<and> merge_cycles [interval 10 20 3 CHR ''A''] [interval 25 40 4 CHR ''S''] 2
     = Inr [Unmerged (interval 10 20 3 CHR ''A''), Unmerged (interval 25 40 4 CHR ''S'')]"
  by (simp add: merge_pair_10_20_25_40 interval_simps)

text \<open>
  Claim C2. The two inputs \<open>[(10,20)]\<close> and \<open>[(25,40)]\<close> are sorted and non-overlapping,
  and the list \<^verbatim>\<open>merge_cycles\<close> returns for them with \<open>merge_within = 10\<close> is not
  non-overlapping: its first element ends at 40 and its second starts at 25.
\<close>

theorem merge_cycles_overlapping_output:
  "non_overlapping (map Unmerged [interval 10 20 3 CHR ''A''])
   \<and> non_overlapping (map Unmerged [interval 25 40 4 CHR ''S''])
   \<and> (\<exists>c1 c2. merge_cycles [interval 10 20 3 CHR ''A''] [interval 25 40 4 CHR ''S''] 10 = Inr [c1, c2]
         \<and> end_time c1 = 40 \<and> start_time c2 = 25
         \<and> \<not> non_overlapping [c1, c2])"
  by (simp add: merge_pair_10_20_25_40 interval_simps)

text \<open>
  Claim C1. On the same inputs, with 3 and 4 samples, the sample counts of the output sum
  to 11, not to 7: the absorbed interval \<open>(25,40)\<close> is counted in the merged cycle and again
  on its own.
\<close>

theorem merge_cycles_sample_count_twice:
  "\<exists>merged. merge_cycles [interval 10 20 3 CHR ''A''] [interval 25 40 4 CHR ''S''] 10 = Inr merged
     \<and> sum_list (map sample_count merged) = 11
     \<and> sum_list (map sample_count (map Unmerged [interval 10 20 3 CHR ''A'']))
       + sum_list (map sample_count (map Unmerged [interval 25 40 4 CHR ''S''])) = 7"
  by (simp add: merge_pair_10_20_25_40 interval_simps)

section \<open>Properties of \<^verbatim>\<open>extract_cycles_curr\<close>\<close>

lemma row_simps:
  "Stamp (row t c s) = t" "ChargingCurr (row t c s) = c" "soc_smooth (row t c s) = s"
  by (simp_all add: row_def)

text \<open>
  Claim C4, as the code has it. On the samples \<open>(0,5), (60,5), (120,55), (180,60), (240,5)\<close> with
  both thresholds 50, \<open>min_charge_time = 60\<close>, \<open>min_charge_samples = 1\<close> and the default
  \<open>max_sample_delay\<close> of 600 seconds, whatever the smoothed state of charge of the rows and
  whatever \<open>min_charge_amount\<close>: no cycle is accepted, and exactly one cycle is discarded,
  spanning 120 to 180 with sample count 2. Its duration of 60 is not greater than
  \<open>min_charge_time\<close>.
\<close>

theorem extract_cycles_curr_scenario:
  "extract_cycles_curr
     \<lparr>charge_thresh_start = 50, charge_thresh_end = 50, min_charge_samples = 1,
      min_charge_amount = a, max_sample_delay = 600, min_charge_time = 60\<rparr>
     [row 0 5 s0, row 60 5 s1, row 120 55 s2, row 180 60 s3, row 240 5 s4]
   = Inr ([], [(row 120 55 s2, row 180 60 s3, 2, 115 / 2)])"
  by (simp add: extract_cycles_curr_def curr_init_def curr_step_def curr_stop_def
      curr_close_def row_simps)

text \<open>
  The scenario of claim C4 at a concrete input whose state of charge rises by one half
  between 120 and 180, with the default \<open>min_charge_amount\<close> of 0.05: the list of accepted
  cycles is empty.
\<close>

theorem extract_cycles_curr_scenario_not_accepted:
  "extract_cycles_curr
     \<lparr>charge_thresh_start = 50, charge_thresh_end = 50, min_charge_samples = 1,
      min_charge_amount = 1 / 20, max_sample_delay = 600, min_charge_time = 60\<rparr>
     [row 0 5 0, row 60 5 0, row 120 55 (1 / 4), row 180 60 (3 / 4), row 240 5 (3 / 4)]
   = Inr ([], [(row 120 55 (1 / 4), row 180 60 (3 / 4), 2, 115 / 2)])"
  by (simp add: extract_cycles_curr_def curr_init_def curr_step_def curr_stop_def
      curr_close_def row_simps)

section \<open>Properties of \<^verbatim>\<open>extract_cycles_soc\<close>\<close>

lemmas soc_eval =
  extract_cycles_soc_def soc_init_def soc_step_def soc_stop_def soc_close_def
  soc_extend_tail_def soc_absorb_discarded_def soc_emit_def soc_reset_def
  deque_append_def soc_derivative_def avg_def can_merge_seq_def can_merge_def
  row_def row_diff_def Let_def

lemma soc_reset_simps:
  "cycles (soc_reset st) = cycles st"
  "discarded_cycles (soc_reset st) = discarded_cycles st"
  "soc_history (soc_reset st) = soc_history st"
  "charge_start (soc_reset st) = None"
  by (simp_all add: soc_reset_def)

subsection \<open>Where a closing cycle ends\<close>

lemma soc_extend_tail_end:
  "soc_extend_tail st ce = Inr st' \<Longrightarrow> cycles st' \<noteq> [] \<and> cycle_end (last (cycles st')) = ce"
  by (auto simp: soc_extend_tail_def cycle_end_def Let_def split: list.splits prod.splits)

lemma soc_emit_end:
  "(cycles (soc_emit p cs ce st) \<noteq> [] \<and> cycle_end (last (cycles (soc_emit p cs ce st))) = ce)
   \<or> (discarded_cycles (soc_emit p cs ce st) \<noteq> []
       \<and> cycle_end (last (discarded_cycles (soc_emit p cs ce st))) = ce)"
  by (simp add: soc_emit_def cycle_end_def Let_def)

lemma soc_close_end:
  assumes "soc_close p cs st = Inr st'" and "charge_end st = Some ce"
  shows "(cycles st' \<noteq> [] \<and> cycle_end (last (cycles st')) = ce)
       \<or> (discarded_cycles st' \<noteq> [] \<and> cycle_end (last (discarded_cycles st')) = ce)"
proof (cases "can_merge_seq (cycles st) (cs, ce) (merge_within p)")
  case (Inl e)
  with assms show ?thesis by (simp add: soc_close_def)
next
  case (Inr m)
  show ?thesis
  proof (cases m)
    case True
    with Inr assms obtain st1 where "soc_extend_tail st ce = Inr st1" and "st' = soc_reset st1"
      by (auto simp: soc_close_def split: sum.splits)
    then show ?thesis using soc_extend_tail_end [of st ce st1] by (simp add: soc_reset_simps)
  next
    case False
    with Inr assms obtain cs' st1 where "st' = soc_reset (soc_emit p cs' ce st1)"
      by (auto simp: soc_close_def split: sum.splits if_splits)
    then show ?thesis using soc_emit_end [of p cs' ce st1] by (simp add: soc_reset_simps)
  qed
qed

lemma soc_step_charging:
  assumes "soc_step q t s = Inr t'" and "charge_start t = Some cs"
  shows "\<exists>d st1 st2.
           soc_stop q (t\<lparr>soc_history := deque_append (derivate_span q) (soc_history t) (soc_smooth s)\<rparr>)
             (s\<lparr>soc_diff := Some d\<rparr>) d = Inr st1
         \<and> soc_close q cs st1 = Inr st2
         \<and> t' = st2\<lparr>last_sample := Some (s\<lparr>soc_diff := Some d\<rparr>)\<rparr>"
  using assms by (auto simp: soc_step_def Let_def split: sum.splits)

lemma curr_close_at_previous:
  assumes "charge_start st = Some cs" and "last_sample st = Some ls"
    and "ChargingCurr s < charge_thresh_end p \<or> max_sample_delay p < Stamp s - Stamp ls"
  shows "\<exists>st'. curr_step p st s = Inr st'
           \<and> ((cycles st' = cycles st @ [(cs, ls, charge_sample_count st, charge_avg_curr st)]
                 \<and> discarded_cycles st' = discarded_cycles st)
              \<or> (cycles st' = cycles st
                 \<and> discarded_cycles st' = discarded_cycles st
                      @ [(cs, ls, charge_sample_count st, charge_avg_curr st)]))"
  using assms by (auto simp: curr_step_def curr_stop_def curr_close_def Let_def)

lemma soc_close_at:
  assumes "soc_step q t s = Inr t'" and "charge_start t = Some cs"
    and "last_sample t' = Some s'" and "soc_diff s' = Some d"
  shows "d < charge_thresh_end q \<longrightarrow>
           (cycles t' \<noteq> [] \<and> cycle_end (last (cycles t')) = s')
         \<or> (discarded_cycles t' \<noteq> [] \<and> cycle_end (last (discarded_cycles t')) = s')"
    and "\<not> d < charge_thresh_end q \<and> last_sample t = Some ls
           \<and> max_sample_delay q < Stamp s - Stamp ls \<longrightarrow>
           (cycles t' \<noteq> [] \<and> cycle_end (last (cycles t')) = ls)
         \<or> (discarded_cycles t' \<noteq> [] \<and> cycle_end (last (discarded_cycles t')) = ls)"
proof -
  from soc_step_charging [OF assms(1,2)] obtain d' st1 st2 where
    stop: "soc_stop q (t\<lparr>soc_history := deque_append (derivate_span q) (soc_history t) (soc_smooth s)\<rparr>)
             (s\<lparr>soc_diff := Some d'\<rparr>) d' = Inr st1"
    and close: "soc_close q cs st1 = Inr st2"
    and t': "t' = st2\<lparr>last_sample := Some (s\<lparr>soc_diff := Some d'\<rparr>)\<rparr>"
    by blast
  from t' assms(3) have s': "s' = s\<lparr>soc_diff := Some d'\<rparr>" by simp
  with assms(4) have d: "d' = d" by simp
  show "d < charge_thresh_end q \<longrightarrow>
           (cycles t' \<noteq> [] \<and> cycle_end (last (cycles t')) = s')
         \<or> (discarded_cycles t' \<noteq> [] \<and> cycle_end (last (discarded_cycles t')) = s')"
  proof
    assume "d < charge_thresh_end q"
    with stop d s' have "charge_end st1 = Some s'" by (auto simp: soc_stop_def)
    from soc_close_end [OF close this]
    show "(cycles t' \<noteq> [] \<and> cycle_end (last (cycles t')) = s')
         \<or> (discarded_cycles t' \<noteq> [] \<and> cycle_end (last (discarded_cycles t')) = s')"
      by (simp add: t')
  qed
  show "\<not> d < charge_thresh_end q \<and> last_sample t = Some ls
           \<and> max_sample_delay q < Stamp s - Stamp ls \<longrightarrow>
           (cycles t' \<noteq> [] \<and> cycle_end (last (cycles t')) = ls)
         \<or> (discarded_cycles t' \<noteq> [] \<and> cycle_end (last (discarded_cycles t')) = ls)"
  proof
    assume "\<not> d < charge_thresh_end q \<and> last_sample t = Some ls
              \<and> max_sample_delay q < Stamp s - Stamp ls"
    with stop d have "charge_end st1 = Some ls" by (auto simp: soc_stop_def)
    from soc_close_end [OF close this]
    show "(cycles t' \<noteq> [] \<and> cycle_end (last (cycles t')) = ls)
         \<or> (discarded_cycles t' \<noteq> [] \<and> cycle_end (last (discarded_cycles t')) = ls)"
      by (simp add: t')
  qed
qed

text \<open>
  Where a closing cycle ends, in both extractors. In the current-based extractor a cycle
  that closes, because
  the current is below \<^verbatim>\<open>charge_thresh_end\<close> or because of the sample delay, is emitted
  (accepted or discarded) with the previous sample \<open>ls\<close> as its end. In the SoC-based
  extractor, where \<open>s'\<close> is the current row with its \<^verbatim>\<open>soc_diff\<close> \<open>d\<close>: a close because
  \<open>d\<close> is below \<^verbatim>\<open>charge_thresh_end\<close> leaves a last accepted or last discarded cycle that
  ends at the current row \<open>s'\<close>; a close by the sample delay leaves one that ends at the
  previous sample \<open>ls2\<close>.
\<close>

theorem close_sample_of_both_extractors:
  "(charge_start st = Some cs \<and> last_sample st = Some ls
      \<and> (ChargingCurr s < charge_thresh_end p \<or> max_sample_delay p < Stamp s - Stamp ls)
    \<longrightarrow> (\<exists>st'. curr_step p st s = Inr st'
           \<and> ((cycles st' = cycles st @ [(cs, ls, charge_sample_count st, charge_avg_curr st)]
                 \<and> discarded_cycles st' = discarded_cycles st)
              \<or> (cycles st' = cycles st
                 \<and> discarded_cycles st' = discarded_cycles st
                      @ [(cs, ls, charge_sample_count st, charge_avg_curr st)]))))
   \<and> (soc_step q t s2 = Inr t' \<and> charge_start t = Some cs2
        \<and> last_sample t' = Some s' \<and> soc_diff s' = Some d \<and> d < charge_thresh_end q
    \<longrightarrow> (cycles t' \<noteq> [] \<and> cycle_end (last (cycles t')) = s')
         \<or> (discarded_cycles t' \<noteq> [] \<and> cycle_end (last (discarded_cycles t')) = s'))
   \<and> (soc_step q t s2 = Inr t' \<and> charge_start t = Some cs2
        \<and> last_sample t' = Some s' \<and> soc_diff s' = Some d \<and> \<not> d < charge_thresh_end q
        \<and> last_sample t = Some ls2 \<and> max_sample_delay q < Stamp s2 - Stamp ls2
    \<longrightarrow> (cycles t' \<noteq> [] \<and> cycle_end (last (cycles t')) = ls2)
         \<or> (discarded_cycles t' \<noteq> [] \<and> cycle_end (last (discarded_cycles t')) = ls2))"
  using curr_close_at_previous [of st cs ls s p]
    soc_close_at(1) [of q t s2 t' cs2 s' d]
    soc_close_at(2) [of q t s2 t' cs2 s' d ls2]
  by blast

lemma soc_example_threshold_step:
  "soc_step soc_example_params soc_example_charging (row 180 0 (1 / 2))
     = Inr \<lparr>cycles = [(row_diff 60 0 (1 / 4) (1 / 4), row_diff 180 0 (1 / 2) 0, 2, 1 / 4)],
            discarded_cycles = [], charge_start = None, charge_end = None,
            charge_sample_count = 0, last_sample = Some (row_diff 180 0 (1 / 2) 0),
            soc_history = [1 / 2, 1 / 2]\<rparr>"
  by (simp add: soc_example_params_def soc_example_charging_def soc_eval)

lemma soc_example_timeout_step:
  "soc_step soc_example_params soc_example_charging (row 1000 0 1)
     = Inr \<lparr>cycles = [],
            discarded_cycles = [(row_diff 60 0 (1 / 4) (1 / 4), row_diff 120 0 (1 / 2) (1 / 4), 2, 1 / 4)],
            charge_start = None, charge_end = None,
            charge_sample_count = 0, last_sample = Some (row_diff 1000 0 1 (1 / 2)),
            soc_history = [1 / 2, 1]\<rparr>"
  by (simp add: soc_example_params_def soc_example_charging_def soc_eval)

theorem close_sample_of_both_extractors_witness:
  "curr_step \<lparr>charge_thresh_start = 50, charge_thresh_end = 50, min_charge_samples = 1,
              min_charge_amount = 1 / 20, max_sample_delay = 600, min_charge_time = 60\<rparr>
     curr_example_charging (row 240 5 0)
     = Inr \<lparr>cycles = [], discarded_cycles = [(row 120 55 0, row 180 60 0, 2, 115 / 2)],
            charge_start = None, charge_end = None, charge_sample_count = 0,
            last_sample = Some (row 240 5 0), charge_avg_curr = 0\<rparr>
   \<and> (\<exists>t'. soc_step soc_example_params soc_example_charging (row 180 0 (1 / 2)) = Inr t'
          \<and> last_sample t' = Some (row_diff 180 0 (1 / 2) 0)
          \<and> 0 < charge_thresh_end soc_example_params
          \<and> cycle_end (last (cycles t')) = row_diff 180 0 (1 / 2) 0)
   \<and> (\<exists>t'. soc_step soc_example_params soc_example_charging (row 1000 0 1) = Inr t'
          \<and> last_sample t' = Some (row_diff 1000 0 1 (1 / 2))
          \<and> \<not> 1 / 2 < charge_thresh_end soc_example_params
          \<and> max_sample_delay soc_example_params < 1000 - 120
          \<and> cycle_end (last (discarded_cycles t')) = row_diff 120 0 (1 / 2) (1 / 4))"
proof -
  let ?p = "\<lparr>charge_thresh_start = 50, charge_thresh_end = 50, min_charge_samples = 1,
             min_charge_amount = 1 / 20, max_sample_delay = 600, min_charge_time = 60\<rparr>"
  let ?t1 = "\<lparr>cycles = [(row_diff 60 0 (1 / 4) (1 / 4), row_diff 180 0 (1 / 2) 0, 2, 1 / 4)],
             discarded_cycles = [], charge_start = None, charge_end = None,
             charge_sample_count = 0, last_sample = Some (row_diff 180 0 (1 / 2) 0),
             soc_history = [1 / 2, 1 / 2]\<rparr>"
  let ?t2 = "\<lparr>cycles = [],
             discarded_cycles = [(row_diff 60 0 (1 / 4) (1 / 4), row_diff 120 0 (1 / 2) (1 / 4), 2, 1 / 4)],
             charge_start = None, charge_end = None,
             charge_sample_count = 0, last_sample = Some (row_diff 1000 0 1 (1 / 2)),
             soc_history = [1 / 2, 1]\<rparr>"
  have curr: "charge_start curr_example_charging = Some (row 120 55 0)
      \<and> last_sample curr_example_charging = Some (row 180 60 0)
      \<and> (ChargingCurr (row 240 5 0) < charge_thresh_end ?p
          \<or> max_sample_delay ?p < Stamp (row 240 5 0) - Stamp (row 180 60 0))"
    by (simp add: curr_example_charging_def row_simps)
  have thr: "soc_step soc_example_params soc_example_charging (row 180 0 (1 / 2)) = Inr ?t1
      \<and> charge_start soc_example_charging = Some (row_diff 60 0 (1 / 4) (1 / 4))
      \<and> last_sample ?t1 = Some (row_diff 180 0 (1 / 2) 0)
      \<and> soc_diff (row_diff 180 0 (1 / 2) 0) = Some 0
      \<and> 0 < charge_thresh_end soc_example_params"
    by (simp add: soc_example_threshold_step)
      (simp add: soc_example_charging_def soc_example_params_def row_diff_def)
  have tmo: "soc_step soc_example_params soc_example_charging (row 1000 0 1) = Inr ?t2
      \<and> charge_start soc_example_charging = Some (row_diff 60 0 (1 / 4) (1 / 4))
      \<and> last_sample ?t2 = Some (row_diff 1000 0 1 (1 / 2))
      \<and> soc_diff (row_diff 1000 0 1 (1 / 2)) = Some (1 / 2)
      \<and> \<not> 1 / 2 < charge_thresh_end soc_example_params
      \<and> last_sample soc_example_charging = Some (row_diff 120 0 (1 / 2) (1 / 4))
      \<and> max_sample_delay soc_example_params < Stamp (row 1000 0 1) - Stamp (row_diff 120 0 (1 / 2) (1 / 4))"
    by (simp add: soc_example_timeout_step)
      (simp add: soc_example_charging_def soc_example_params_def row_diff_def row_def)
  from curr close_sample_of_both_extractors
    [of curr_example_charging "row 120 55 0" "row 180 60 0" "row 240 5 0" ?p]
  have c1: "\<exists>st'. curr_step ?p curr_example_charging (row 240 5 0) = Inr st'" by blast
  from thr close_sample_of_both_extractors
    [of _ _ _ _ _ soc_example_params soc_example_charging "row 180 0 (1 / 2)" ?t1
        "row_diff 60 0 (1 / 4) (1 / 4)" "row_diff 180 0 (1 / 2) 0" 0]
  have c2: "(cycles ?t1 \<noteq> [] \<and> cycle_end (last (cycles ?t1)) = row_diff 180 0 (1 / 2) 0)
      \<or> (discarded_cycles ?t1 \<noteq> []
          \<and> cycle_end (last (discarded_cycles ?t1)) = row_diff 180 0 (1 / 2) 0)"
    by blast
  from tmo close_sample_of_both_extractors
    [of _ _ _ _ _ soc_example_params soc_example_charging "row 1000 0 1" ?t2
        "row_diff 60 0 (1 / 4) (1 / 4)" "row_diff 1000 0 1 (1 / 2)" "1 / 2"
        "row_diff 120 0 (1 / 2) (1 / 4)"]
  have c3: "(cycles ?t2 \<noteq> [] \<and> cycle_end (last (cycles ?t2)) = row_diff 120 0 (1 / 2) (1 / 4))
      \<or> (discarded_cycles ?t2 \<noteq> []
          \<and> cycle_end (last (discarded_cycles ?t2)) = row_diff 120 0 (1 / 2) (1 / 4))"
    by blast
  have e1: "curr_step ?p curr_example_charging (row 240 5 0)
     = Inr \<lparr>cycles = [], discarded_cycles = [(row 120 55 0, row 180 60 0, 2, 115 / 2)],
            charge_start = None, charge_end = None, charge_sample_count = 0,
            last_sample = Some (row 240 5 0), charge_avg_curr = 0\<rparr>"
    using c1 by (simp add: curr_example_charging_def curr_step_def curr_stop_def
        curr_close_def row_simps)
  from c2 have e2: "cycle_end (last (cycles ?t1)) = row_diff 180 0 (1 / 2) 0" by simp
  from c3 have e3: "cycle_end (last (discarded_cycles ?t2)) = row_diff 120 0 (1 / 2) (1 / 4)"
    by simp
  from e1 e2 e3 thr tmo show ?thesis
    by (simp add: row_def row_diff_def)
qed

text \<open>
  Claim C6, evaluated on the code. The SoC extractor on four samples, one minute apart,
  whose smoothed state of charge is 0, 1/4, 1/2, 1/2: the charge that starts at time 60
  closes at time 180 because the derivative is back to 0, below the threshold of 1/8, and
  the accepted cycle ends at the row of time 180, the row that triggered the close, not at
  the previous one of time 120 as the current-based extractor and the timeout close do. Its
  sample count is 2, the rows of time 60 and 120: the row it ends at is not counted.
\<close>

theorem soc_threshold_close_at_current:
  "extract_cycles_soc soc_example_params
     [row 0 0 0, row 60 0 (1 / 4), row 120 0 (1 / 2), row 180 0 (1 / 2)]
   = Inr ([(row_diff 60 0 (1 / 4) (1 / 4), row_diff 180 0 (1 / 2) 0, 2, 1 / 4)], [])
   \<and> Stamp (cycle_end (row_diff 60 0 (1 / 4) (1 / 4), row_diff 180 0 (1 / 2) 0, 2, 1 / 4)) = 180"
  by (simp add: soc_example_params_def soc_eval cycle_end_def)

subsection \<open>Merging a candidate into the accepted tail\<close>

text \<open>
  Claim C7, evaluated on the code. Seven samples one minute apart with smoothed state of
  charge 0, 1/4, 1/2, 1/2, 3/4, 1, 1: the first charge (60 to 180, two samples) is accepted,
  and the second candidate (240 to 360, two samples) merges with it. No new cycle is
  emitted, the tail's end becomes the candidate's end and its metric the cumulative delta
  3/4, but its sample count becomes 9/4, the tail's previous metric 1/4 plus the
  candidate's 2 samples, and not 2 + 2 = 4.
\<close>

theorem soc_tail_merge_sample_count:
  "extract_cycles_soc soc_example_params
     [row 0 0 0, row 60 0 (1 / 4), row 120 0 (1 / 2), row 180 0 (1 / 2),
      row 240 0 (3 / 4), row 300 0 1, row 360 0 1]
   = Inr ([(row_diff 60 0 (1 / 4) (1 / 4), row_diff 360 0 1 0, 9 / 4, 3 / 4)], [])"
  by (simp add: soc_example_params_def soc_eval)

subsection \<open>The derivative estimate and its window\<close>

lemma can_merge_error: "can_merge a b w = Inl e \<Longrightarrow> e = AssertionError"
  by (auto simp: can_merge_def Let_def split: if_splits)

lemma can_merge_seq_error: "can_merge_seq cs n w = Inl e \<Longrightarrow> e = AssertionError"
  by (auto simp: can_merge_seq_def split: if_splits prod.splits dest: can_merge_error)

lemma soc_extend_tail_error: "soc_extend_tail st ce = Inl e \<Longrightarrow> e = IndexError"
  by (auto simp: soc_extend_tail_def Let_def split: list.splits prod.splits)

lemma soc_extend_tail_history: "soc_extend_tail st ce = Inr st' \<Longrightarrow> soc_history st' = soc_history st"
  by (auto simp: soc_extend_tail_def Let_def split: list.splits prod.splits)

lemma soc_absorb_discarded_error: "soc_absorb_discarded cs st = Inl e \<Longrightarrow> e = IndexError"
  by (auto simp: soc_absorb_discarded_def split: list.splits prod.splits)

lemma soc_absorb_discarded_history:
  "soc_absorb_discarded cs st = Inr (cs', st') \<Longrightarrow> soc_history st' = soc_history st"
  by (auto simp: soc_absorb_discarded_def split: list.splits prod.splits)

lemma soc_emit_history: "soc_history (soc_emit p cs ce st) = soc_history st"
  by (simp add: soc_emit_def Let_def)

lemma soc_close_error:
  assumes "soc_close p cs st = Inl e"
  shows "e \<noteq> ZeroDivisionError"
proof (cases "charge_end st")
  case None
  with assms show ?thesis by (simp add: soc_close_def)
next
  case (Some ce)
  show ?thesis
  proof (cases "can_merge_seq (cycles st) (cs, ce) (merge_within p)")
    case (Inl e1)
    with assms Some have "e = e1" by (simp add: soc_close_def)
    with Inl show ?thesis using can_merge_seq_error by fastforce
  next
    case m: (Inr m)
    show ?thesis
    proof (cases m)
      case True
      with m assms Some have "soc_extend_tail st ce = Inl e"
        by (simp add: soc_close_def split: sum.splits)
      then show ?thesis using soc_extend_tail_error by fastforce
    next
      case False
      show ?thesis
      proof (cases "can_merge_seq (discarded_cycles st) (cs, ce) (merge_within p)")
        case (Inl e1)
        with assms Some m False have "e = e1" by (simp add: soc_close_def)
        with Inl show ?thesis using can_merge_seq_error by fastforce
      next
        case (Inr md)
        with assms Some m False have "md" and "soc_absorb_discarded cs st = Inl e"
          by (auto simp: soc_close_def split: sum.splits if_splits)
        then show ?thesis using soc_absorb_discarded_error by fastforce
      qed
    qed
  qed
qed

lemma soc_close_history:
  assumes "soc_close p cs st = Inr st'"
  shows "soc_history st' = soc_history st"
proof (cases "charge_end st")
  case None
  with assms show ?thesis by (simp add: soc_close_def)
next
  case (Some ce)
  show ?thesis
  proof (cases "can_merge_seq (cycles st) (cs, ce) (merge_within p)")
    case (Inl e1)
    with assms Some show ?thesis by (simp add: soc_close_def)
  next
    case m: (Inr m)
    show ?thesis
    proof (cases m)
      case True
      with m assms Some obtain st1 where "soc_extend_tail st ce = Inr st1" "st' = soc_reset st1"
        by (auto simp: soc_close_def split: sum.splits)
      then show ?thesis using soc_extend_tail_history by (simp add: soc_reset_simps)
    next
      case False
      show ?thesis
      proof (cases "can_merge_seq (discarded_cycles st) (cs, ce) (merge_within p)")
        case (Inl e1)
        with assms Some m False show ?thesis by (simp add: soc_close_def)
      next
        case (Inr md)
        show ?thesis
        proof (cases md)
          case True
          with Inr assms Some m False obtain cs' st1 where
            "soc_absorb_discarded cs st = Inr (cs', st1)" "st' = soc_reset (soc_emit p cs' ce st1)"
            by (auto simp: soc_close_def split: sum.splits)
          then show ?thesis using soc_absorb_discarded_history
            by (simp add: soc_reset_simps soc_emit_history)
        next
          case no: False
          with Inr assms Some m False have "st' = soc_reset (soc_emit p cs ce st)"
            by (auto simp: soc_close_def)
          then show ?thesis by (simp add: soc_reset_simps soc_emit_history)
        qed
      qed
    qed
  qed
qed

lemma soc_stop_history:
  "soc_stop p st s d = Inr st' \<Longrightarrow> soc_history st' = soc_history st"
  by (auto simp: soc_stop_def split: if_splits option.splits)

lemma soc_stop_error:
  "soc_stop p st s d = Inl e \<Longrightarrow> e = TypeError"
  by (auto simp: soc_stop_def split: if_splits option.splits)

lemma deque_append_length:
  "0 \<le> n \<Longrightarrow> int (length d) \<le> n \<Longrightarrow> int (length (deque_append n d x)) \<le> n"
  by (auto simp: deque_append_def Let_def)

lemma soc_derivative_full:
  assumes "2 \<le> n" "int (length h) \<le> n"
  shows "soc_derivative n h =
     Inr (if int (length h) < n then 0
          else sum_list (drop (length h div 2) h) / real (length (drop (length h div 2) h))
             - sum_list (take (length h div 2) h) / real (length (take (length h div 2) h)))"
proof (cases "int (length h) < n")
  case True
  then show ?thesis by (simp add: soc_derivative_def)
next
  case False
  with assms have l: "int (length h) = n" by simp
  with assms have "2 \<le> length h" by linarith
  then have "0 < length h div 2" "length h div 2 < length h" by auto
  then show ?thesis using False
    by (simp add: soc_derivative_def avg_def Let_def)
qed

lemma soc_step_result:
  assumes "2 \<le> derivate_span p" and "int (length (soc_history st)) \<le> derivate_span p"
  shows "case soc_step p st s of
           Inl e \<Rightarrow> e \<noteq> ZeroDivisionError
         | Inr st' \<Rightarrow>
             soc_history st' = deque_append (derivate_span p) (soc_history st) (soc_smooth s)
           \<and> last_sample st' = Some (s\<lparr>soc_diff := Some (window_diff (derivate_span p) (soc_history st'))\<rparr>)"
proof -
  let ?h = "deque_append (derivate_span p) (soc_history st) (soc_smooth s)"
  let ?d = "window_diff (derivate_span p) ?h"
  let ?s = "s\<lparr>soc_diff := Some ?d\<rparr>"
  let ?st0 = "st\<lparr>soc_history := ?h\<rparr>"
  from assms have len: "int (length ?h) \<le> derivate_span p"
    by (intro deque_append_length) auto
  have d: "soc_derivative (derivate_span p) ?h = Inr ?d"
    unfolding window_diff_def by (rule soc_derivative_full [OF assms(1) len])
  show ?thesis
  proof (cases "charge_start st")
    case None
    then show ?thesis by (simp add: soc_step_def d Let_def)
  next
    case (Some cs)
    show ?thesis
    proof (cases "soc_stop p ?st0 ?s ?d")
      case (Inl e)
      then have "e = TypeError" by (rule soc_stop_error)
      with Inl Some show ?thesis by (simp add: soc_step_def d Let_def)
    next
      case st1: (Inr st1)
      then have h1: "soc_history st1 = ?h" using soc_stop_history by fastforce
      show ?thesis
      proof (cases "soc_close p cs st1")
        case (Inl e)
        then have "e \<noteq> ZeroDivisionError" by (rule soc_close_error)
        with Inl st1 Some show ?thesis by (simp add: soc_step_def d Let_def)
      next
        case (Inr st2)
        then have "soc_history st2 = ?h" using soc_close_history h1 by fastforce
        with Inr st1 Some show ?thesis by (simp add: soc_step_def d Let_def)
      qed
    qed
  qed
qed

lemma soc_loop_no_zero_division:
  assumes "2 \<le> derivate_span p"
  shows "int (length (soc_history st)) \<le> derivate_span p \<Longrightarrow> soc_loop p st samples \<noteq> Inl ZeroDivisionError"
proof (induction samples arbitrary: st)
  case Nil
  then show ?case by simp
next
  case (Cons s samples)
  from soc_step_result [OF assms Cons.prems, of s] show ?case
  proof (cases "soc_step p st s")
    case (Inl e)
    with soc_step_result [OF assms Cons.prems, of s] show ?thesis by simp
  next
    case (Inr st')
    with soc_step_result [OF assms Cons.prems, of s]
    have "soc_history st' = deque_append (derivate_span p) (soc_history st) (soc_smooth s)" by simp
    with assms Cons.prems have "int (length (soc_history st')) \<le> derivate_span p"
      by (simp add: deque_append_length)
    from Cons.IH [OF this] Inr show ?thesis by simp
  qed
qed

text \<open>
  Claim C9, as the code has it: for a window of at least two values. From any state whose
  window holds at most \<^verbatim>\<open>derivate_span\<close> values (as the initial, empty one does), with
  \<open>h\<close> the window after the append: the derivative is computed without error and is
  \<open>window_diff\<close>, that is 0 while \<open>h\<close> holds fewer than \<^verbatim>\<open>derivate_span\<close> values and the
  average of the second half minus the average of the first half once it is full; both
  halves are then non-empty; \<open>h\<close> again holds at most \<^verbatim>\<open>derivate_span\<close> values; the step
  stores that estimate as the row's \<^verbatim>\<open>soc_diff\<close>; and neither the step, the loop nor the
  whole extractor raises \<^verbatim>\<open>ZeroDivisionError\<close>.
\<close>

theorem derivative_window_guard:
  assumes "2 \<le> derivate_span p" and "int (length (soc_history st)) \<le> derivate_span p"
  shows "(let h = deque_append (derivate_span p) (soc_history st) (soc_smooth s) in
            soc_derivative (derivate_span p) h = Inr (window_diff (derivate_span p) h)
          \<and> int (length h) \<le> derivate_span p
          \<and> (int (length h) < derivate_span p
              \<or> (take (length h div 2) h \<noteq> [] \<and> drop (length h div 2) h \<noteq> []))
          \<and> (case soc_step p st s of
                Inl e \<Rightarrow> e \<noteq> ZeroDivisionError
              | Inr st' \<Rightarrow>
                  soc_history st' = h
                \<and> last_sample st' = Some (s\<lparr>soc_diff := Some (window_diff (derivate_span p) h)\<rparr>)))
       \<and> soc_loop p st samples \<noteq> Inl ZeroDivisionError
       \<and> extract_cycles_soc p samples \<noteq> Inl ZeroDivisionError"
proof -
  let ?h = "deque_append (derivate_span p) (soc_history st) (soc_smooth s)"
  from assms have len: "int (length ?h) \<le> derivate_span p"
    by (intro deque_append_length) auto
  have d: "soc_derivative (derivate_span p) ?h = Inr (window_diff (derivate_span p) ?h)"
    unfolding window_diff_def by (rule soc_derivative_full [OF assms(1) len])
  have halves: "int (length ?h) < derivate_span p
      \<or> (take (length ?h div 2) ?h \<noteq> [] \<and> drop (length ?h div 2) ?h \<noteq> [])"
  proof (cases "int (length ?h) < derivate_span p")
    case True
    then show ?thesis by simp
  next
    case False
    with assms(1) have "2 \<le> length ?h" by linarith
    then have "0 < length ?h div 2" and "length ?h div 2 < length ?h" by auto
    then show ?thesis by auto
  qed
  have step: "case soc_step p st s of
                Inl e \<Rightarrow> e \<noteq> ZeroDivisionError
              | Inr st' \<Rightarrow>
                  soc_history st' = ?h
                \<and> last_sample st' = Some (s\<lparr>soc_diff := Some (window_diff (derivate_span p) ?h)\<rparr>)"
    using soc_step_result [OF assms, of s] by (auto split: sum.splits)
  have loop: "soc_loop p st samples \<noteq> Inl ZeroDivisionError"
    using assms by (rule soc_loop_no_zero_division)
  have "soc_loop p soc_init samples \<noteq> Inl ZeroDivisionError"
    using assms(1) by (intro soc_loop_no_zero_division) (auto simp: soc_init_def)
  then have all: "extract_cycles_soc p samples \<noteq> Inl ZeroDivisionError"
    by (auto simp: extract_cycles_soc_def split: sum.splits)
  from d len halves step loop all show ?thesis by (simp add: Let_def)
qed

theorem derivative_window_guard_witness:
  "2 \<le> derivate_span soc_example_params
   \<and> int (length (soc_history soc_example_charging)) \<le> derivate_span soc_example_params
   \<and> deque_append 2 [1 / 4, 1 / 2] 1 = [1 / 2, 1]
   \<and> soc_derivative 2 [1 / 2, 1] = Inr (1 / 2)
   \<and> window_diff 2 [1 / 2, 1] = 1 / 2
   \<and> soc_step soc_example_params soc_example_charging (row 1000 0 1) \<noteq> Inl ZeroDivisionError
   \<and> extract_cycles_soc soc_example_params
        [row 0 0 0, row 60 0 (1 / 4), row 120 0 (1 / 2), row 180 0 (1 / 2)]
      \<noteq> Inl ZeroDivisionError"
proof -
  have h: "2 \<le> derivate_span soc_example_params
      \<and> int (length (soc_history soc_example_charging)) \<le> derivate_span soc_example_params"
    by (simp add: soc_example_params_def soc_example_charging_def)
  have w: "deque_append 2 [1 / 4, 1 / 2] 1 = [1 / 2, 1] \<and> window_diff 2 [1 / 2, 1] = 1 / 2"
    by (simp add: deque_append_def window_diff_def)
  have e: "derivate_span soc_example_params = 2
      \<and> soc_history soc_example_charging = [1 / 4, 1 / 2] \<and> soc_smooth (row 1000 0 1) = 1"
    by (simp add: soc_example_params_def soc_example_charging_def row_def)
  from h derivative_window_guard
    [of soc_example_params soc_example_charging "row 1000 0 1"
        "[row 0 0 0, row 60 0 (1 / 4), row 120 0 (1 / 2), row 180 0 (1 / 2)]"]
  show ?thesis
    by (simp add: e w Let_def soc_example_timeout_step)
qed

text \<open>
  With \<^verbatim>\<open>derivate_span = 1\<close> the window is full after the first sample, its first half
  \<^verbatim>\<open>h[0:0]\<close> is empty, and the average of the first half divides by zero.
\<close>

theorem derivative_span_one_divides_by_zero:
  "extract_cycles_soc
     \<lparr>charge_thresh_start = 1 / 8, charge_thresh_end = 1 / 8, min_charge_samples = 1,
      min_charge_amount = 1 / 8, max_sample_delay = 600, min_charge_time = 60,
      derivate_span = 1, merge_within = 1800\<rparr>
     [row 0 0 0]
   = Inl ZeroDivisionError"
  by (simp add: soc_eval)

section \<open>Properties of \<^verbatim>\<open>smooth\<close>\<close>

lemmas smooth_eval = smooth_def smooth_sample_def truthy_item_def py_mul_def Let_def

lemma truthy_item_update:
  "truthy u \<Longrightarrow> truthy_item (Some (AList.update k u s)) k = Some u"
  by (simp add: truthy_item_def update_conv')

lemma truthy_item_Some: "truthy_item d k = Some u \<Longrightarrow> truthy u"
  by (auto simp: truthy_item_def split: option.splits if_splits)

lemma truthy_item_number:
  "map_of m k = Some (Num x) \<Longrightarrow> x \<noteq> 0 \<Longrightarrow> truthy_item (Some m) k = Some (Num x)"
  by (auto simp: truthy_item_def)

lemma truthy_item_falsy:
  "(truthy_item (Some sample) label = None)
     = (map_of sample label = None \<or> map_of sample label = Some PyNone
        \<or> map_of sample label = Some (Num 0))"
proof (cases "map_of sample label")
  case None
  then show ?thesis by (simp add: truthy_item_def)
next
  case (Some v)
  then have "sample \<noteq> []" by auto
  with Some show ?thesis by (cases v) (simp_all add: truthy_item_def)
qed

lemma smooth_sample_falsy:
  "truthy_item (Some sample) label = None \<Longrightarrow>
     smooth_sample label ls alpha dv prev sample
       = Inr (AList.update ls (case truthy_item prev ls of None \<Rightarrow> dv | Some u \<Rightarrow> u) sample)"
  by (simp add: smooth_sample_def split: option.splits)

lemma smooth_loop_falsy:
  "truthy_item (Some prev) ls = Some u \<Longrightarrow> \<forall>s\<in>set samples. truthy_item (Some s) label = None \<Longrightarrow>
     smooth_loop label ls alpha dv (Some prev) samples = Inr (map (AList.update ls u) samples)"
proof (induction samples arbitrary: prev)
  case Nil
  then show ?case by simp
next
  case (Cons s samples)
  from Cons.prems
  have step: "smooth_sample label ls alpha dv (Some prev) s = Inr (AList.update ls u s)"
    by (simp add: smooth_sample_falsy)
  from Cons.prems(1) have "truthy u" by (rule truthy_item_Some)
  then have "truthy_item (Some (AList.update ls u s)) ls = Some u" by (rule truthy_item_update)
  from Cons.IH [OF this] Cons.prems(2) step show ?case by simp
qed

subsection \<open>No staleness window in \<^verbatim>\<open>data/ChargeCycle.py\<close>\<close>

text \<open>
  Two samples 1000000 seconds apart with raw values 10 and 20, smoothed with
  \<open>alpha = 1/2\<close>: the second smoothed value is 15, the exponential trend continued, and
  neither the raw value 20 nor the default.
\<close>

theorem smooth_no_staleness_reset:
  "smooth [[(''Stamp'', DateTime 0), (''x'', Num 10)],
           [(''Stamp'', DateTime 1000000), (''x'', Num 20)]] ''x'' None (1 / 2) PyNone
   = Inr [[(''Stamp'', DateTime 0), (''x'', Num 10), (''x_smooth'', Num 10)],
          [(''Stamp'', DateTime 1000000), (''x'', Num 20), (''x_smooth'', Num 15)]]"
  by (simp add: smooth_eval)

text \<open>
  The \<^verbatim>\<open>smooth\<close> of \<^verbatim>\<open>data/ChargeCycle.py\<close> has no staleness window and reads no
  timestamp. Whatever the timestamps \<open>t0\<close> of the previous sample and \<open>t1\<close> of the current
  one: when the raw value is a number other than 0 and the previous smoothed value is a
  number other than 0, the smoothed value is
  \<open>alpha * previous + (1 - alpha) * raw\<close>. The smoothed value is set to the raw value
  only when there is no previous sample or its smoothed value is absent, \<^verbatim>\<open>None\<close> or 0.
\<close>

theorem smooth_sample_any_gap:
  "(map_of prev ''Stamp'' = Some (DateTime t0) \<and> map_of sample ''Stamp'' = Some (DateTime t1)
      \<and> map_of sample label = Some (Num v) \<and> v \<noteq> 0
      \<and> map_of prev ls = Some (Num u) \<and> u \<noteq> 0
    \<longrightarrow> smooth_sample label ls alpha dv (Some prev) sample
          = Inr (AList.update ls (Num (alpha * u + (1 - alpha) * v)) sample))
   \<and> (map_of sample label = Some (Num v) \<and> v \<noteq> 0 \<and> truthy_item before ls = None
    \<longrightarrow> smooth_sample label ls alpha dv before sample = Inr (AList.update ls (Num v) sample))"
proof (intro conjI impI)
  assume a: "map_of prev ''Stamp'' = Some (DateTime t0) \<and> map_of sample ''Stamp'' = Some (DateTime t1)
      \<and> map_of sample label = Some (Num v) \<and> v \<noteq> 0
      \<and> map_of prev ls = Some (Num u) \<and> u \<noteq> 0"
  then have "truthy_item (Some sample) label = Some (Num v)"
    and "truthy_item (Some prev) ls = Some (Num u)"
    by (simp_all add: truthy_item_number)
  then show "smooth_sample label ls alpha dv (Some prev) sample
          = Inr (AList.update ls (Num (alpha * u + (1 - alpha) * v)) sample)"
    by (simp add: smooth_sample_def py_mul_def)
next
  assume a: "map_of sample label = Some (Num v) \<and> v \<noteq> 0 \<and> truthy_item before ls = None"
  then have "truthy_item (Some sample) label = Some (Num v)"
    by (simp add: truthy_item_number)
  with a show "smooth_sample label ls alpha dv before sample = Inr (AList.update ls (Num v) sample)"
    by (simp add: smooth_sample_def)
qed

theorem smooth_sample_any_gap_witness:
  "map_of [(''Stamp'', DateTime 0), (''x'', Num 10), (''x_smooth'', Num 10)] ''x_smooth''
     = Some (Num 10)
   \<and> map_of [(''Stamp'', DateTime 1000000), (''x'', Num 20)] ''x'' = Some (Num 20)
   \<and> smooth_sample ''x'' ''x_smooth'' (1 / 2) PyNone
        (Some [(''Stamp'', DateTime 0), (''x'', Num 10), (''x_smooth'', Num 10)])
        [(''Stamp'', DateTime 1000000), (''x'', Num 20)]
      = Inr [(''Stamp'', DateTime 1000000), (''x'', Num 20), (''x_smooth'', Num 15)]
   \<and> truthy_item None ''x_smooth'' = None
   \<and> smooth_sample ''x'' ''x_smooth'' (1 / 2) PyNone None
        [(''Stamp'', DateTime 1000000), (''x'', Num 20)]
      = Inr [(''Stamp'', DateTime 1000000), (''x'', Num 20), (''x_smooth'', Num 20)]"
  using smooth_sample_any_gap
    [of "[(''Stamp'', DateTime 0), (''x'', Num 10), (''x_smooth'', Num 10)]" 0
        "[(''Stamp'', DateTime 1000000), (''x'', Num 20)]" 1000000 "''x''" 20 "''x_smooth''" 10
        "1 / 2" PyNone None]
  by (simp add: truthy_item_def)

subsection \<open>Raw values that are zero\<close>

text \<open>
  Raw values 2, -2, 0 smoothed with \<open>alpha = 1/2\<close> and default 5: the smoothed values are
  2, 0, 5. At the third sample the raw value has dropped to 0 and a previous smoothed value
  exists (it is 0), yet the smoothed value is not carried forward: it changes from 0 to the
  default 5.
\<close>

theorem smooth_zero_after_zero_smoothed:
  "smooth [[(''x'', Num 2)], [(''x'', Num (- 2))], [(''x'', Num 0)]] ''x'' None (1 / 2) (Num 5)
   = Inr [[(''x'', Num 2), (''x_smooth'', Num 2)],
          [(''x'', Num (- 2)), (''x_smooth'', Num 0)],
          [(''x'', Num 0), (''x_smooth'', Num 5)]]"
  by (simp add: smooth_eval)

text \<open>
  Claim C10, as the code has it. The test on the raw value fails in exactly three cases:
  the key is absent, its value is \<^verbatim>\<open>None\<close>, or its value is 0. In each of them the result is
  the same: the smoothed value is the previous smoothed value when that is present and
  neither \<^verbatim>\<open>None\<close> nor 0, and the default otherwise; the raw value does not enter it. So
  after a sample whose smoothed value \<open>u\<close> is neither \<^verbatim>\<open>None\<close> nor 0, a run of samples whose
  raw values are absent, \<^verbatim>\<open>None\<close> or 0 all get the smoothed value \<open>u\<close>.
\<close>

theorem smooth_zero_as_absent:
  "((truthy_item (Some sample) label = None)
      = (map_of sample label = None \<or> map_of sample label = Some PyNone
         \<or> map_of sample label = Some (Num 0)))
   \<and> (truthy_item (Some sample) label = None
    \<longrightarrow> smooth_sample label ls alpha dv before sample
          = Inr (AList.update ls (case truthy_item before ls of None \<Rightarrow> dv | Some u \<Rightarrow> u) sample))
   \<and> (truthy_item (Some prev) ls = Some u
        \<and> (\<forall>s\<in>set samples. truthy_item (Some s) label = None)
    \<longrightarrow> smooth_loop label ls alpha dv (Some prev) samples
          = Inr (map (AList.update ls u) samples))"
  using truthy_item_falsy [of sample label]
    smooth_sample_falsy [of sample label ls alpha dv before]
    smooth_loop_falsy [of prev ls u samples label alpha dv]
  by blast

theorem smooth_zero_as_absent_witness:
  "truthy_item (Some [(''x'', Num 0)]) ''x'' = None
   \<and> smooth_sample ''x'' ''x_smooth'' (1 / 2) (Num 5)
        (Some [(''x'', Num 2), (''x_smooth'', Num 2)]) [(''x'', Num 0)]
      = Inr [(''x'', Num 0), (''x_smooth'', Num 2)]
   \<and> truthy_item (Some [(''x'', Num 2), (''x_smooth'', Num 2)]) ''x_smooth'' = Some (Num 2)
   \<and> smooth_loop ''x'' ''x_smooth'' (1 / 2) (Num 5) (Some [(''x'', Num 2), (''x_smooth'', Num 2)])
        [[(''x'', Num 0)], [(''x'', PyNone)], [(''y'', Num 1)]]
      = Inr [[(''x'', Num 0), (''x_smooth'', Num 2)], [(''x'', PyNone), (''x_smooth'', Num 2)],
             [(''y'', Num 1), (''x_smooth'', Num 2)]]"
proof -
  have h: "truthy_item (Some [(''x'', Num 0)]) ''x'' = None
      \<and> truthy_item (Some [(''x'', Num 2), (''x_smooth'', Num 2)]) ''x_smooth'' = Some (Num 2)
      \<and> (\<forall>s\<in>set [[(''x'', Num 0)], [(''x'', PyNone)], [(''y'', Num 1)]].
            truthy_item (Some s) ''x'' = None)"
    by (simp add: truthy_item_def)
  note inst = smooth_zero_as_absent
    [of "[(''x'', Num 0)]" "''x''" "''x_smooth''" "1 / 2" "Num 5"
        "Some [(''x'', Num 2), (''x_smooth'', Num 2)]"
        "[(''x'', Num 2), (''x_smooth'', Num 2)]" "Num 2"
        "[[(''x'', Num 0)], [(''x'', PyNone)], [(''y'', Num 1)]]"]
  from h inst
  have one: "smooth_sample ''x'' ''x_smooth'' (1 / 2) (Num 5)
        (Some [(''x'', Num 2), (''x_smooth'', Num 2)]) [(''x'', Num 0)]
      = Inr (AList.update ''x_smooth''
          (case truthy_item (Some [(''x'', Num 2), (''x_smooth'', Num 2)]) ''x_smooth'' of
             None \<Rightarrow> Num 5 | Some u \<Rightarrow> u) [(''x'', Num 0)])"
    by blast
  from h inst
  have run: "smooth_loop ''x'' ''x_smooth'' (1 / 2) (Num 5)
        (Some [(''x'', Num 2), (''x_smooth'', Num 2)])
        [[(''x'', Num 0)], [(''x'', PyNone)], [(''y'', Num 1)]]
      = Inr (map (AList.update ''x_smooth'' (Num 2))
          [[(''x'', Num 0)], [(''x'', PyNone)], [(''y'', Num 1)]])"
    by blast
  from h have p: "truthy_item (Some [(''x'', Num 2), (''x_smooth'', Num 2)]) ''x_smooth''
      = Some (Num 2)" by blast
  from h have z: "truthy_item (Some [(''x'', Num 0)]) ''x'' = None" by blast
  show ?thesis unfolding one run p by (simp add: z)
qed

section \<open>Properties of the smoother with a staleness window\<close>

lemma utils_smooth_value_stale:
  "window < stamp - prev_stamp \<Longrightarrow>
     utils_smooth_value alpha dv window (Some (prev_stamp, u)) stamp raw
       = utils_smooth_value alpha dv window None stamp raw"
  by (simp add: utils_smooth_value_def smooth_reset_stale_def)

lemma utils_smooth_value_fresh:
  "utils_smooth_value alpha dv window None stamp raw = (case raw of None \<Rightarrow> dv | Some v \<Rightarrow> Some v)"
  by (simp add: utils_smooth_value_def split: option.splits)

lemma utils_smooth_loop_stale:
  "window < fst y - prev_stamp \<Longrightarrow>
     utils_smooth_loop alpha dv window (Some (prev_stamp, u)) (y # ys)
       = utils_smooth_loop alpha dv window None (y # ys)"
  by (cases y) (simp add: utils_smooth_value_stale)

lemma utils_smooth_loop_length:
  "length (utils_smooth_loop alpha dv window prev xs) = length xs"
  by (induction xs arbitrary: prev) (auto simp: Let_def)

lemma utils_smooth_loop_reset:
  "xs \<noteq> [] \<Longrightarrow> window < fst y - fst (last xs) \<Longrightarrow>
     utils_smooth_loop alpha dv window prev (xs @ y # ys)
       = utils_smooth_loop alpha dv window prev xs @ utils_smooth_loop alpha dv window None (y # ys)"
proof (induction xs arbitrary: prev)
  case Nil
  then show ?case by simp
next
  case (Cons x xs)
  obtain t r where x: "x = (t, r)" by (cases x)
  show ?case
  proof (cases "xs = []")
    case True
    with Cons.prems x have "window < fst y - t" by simp
    then show ?thesis using True x
      by (simp add: Let_def utils_smooth_loop_stale del: utils_smooth_loop.simps(2))
        (simp add: Let_def utils_smooth_loop_stale)
  next
    case False
    with Cons.prems have "window < fst y - fst (last xs)" by simp
    from Cons.IH [OF False this] x show ?thesis by (simp add: Let_def)
  qed
qed

text \<open>
  Claim C5. For every sample sequence: when a sample \<open>y\<close> follows samples \<open>xs\<close> and its
  timestamp gap from the last of them exceeds the staleness window, the derived value of
  \<open>y\<close> is its raw value, or the default when the raw value is absent, whatever was smoothed
  before; and from \<open>y\<close> on the sequence is smoothed as if it started at \<open>y\<close>, so the prior
  exponential trend is not continued.
\<close>

theorem staleness_reset:
  "xs \<noteq> [] \<and> window < fst y - fst (last xs) \<longrightarrow>
     utils_smooth alpha dv window (xs @ y # ys) ! length xs
       = (case snd y of None \<Rightarrow> dv | Some v \<Rightarrow> Some v)
   \<and> utils_smooth alpha dv window (xs @ y # ys)
       = utils_smooth alpha dv window xs @ utils_smooth alpha dv window (y # ys)"
proof (intro impI)
  assume a: "xs \<noteq> [] \<and> window < fst y - fst (last xs)"
  then have eq: "utils_smooth alpha dv window (xs @ y # ys)
       = utils_smooth alpha dv window xs @ utils_smooth alpha dv window (y # ys)"
    unfolding utils_smooth_def by (intro utils_smooth_loop_reset) auto
  have len: "length (utils_smooth alpha dv window xs) = length xs"
    by (simp add: utils_smooth_def utils_smooth_loop_length)
  have hd: "utils_smooth alpha dv window (y # ys) ! 0
      = (case snd y of None \<Rightarrow> dv | Some v \<Rightarrow> Some v)"
    by (cases y) (simp add: utils_smooth_def Let_def utils_smooth_value_fresh)
  from eq len hd show "utils_smooth alpha dv window (xs @ y # ys) ! length xs
       = (case snd y of None \<Rightarrow> dv | Some v \<Rightarrow> Some v)
   \<and> utils_smooth alpha dv window (xs @ y # ys)
       = utils_smooth alpha dv window xs @ utils_smooth alpha dv window (y # ys)"
    by (simp add: nth_append)
qed

theorem staleness_reset_witness:
  "[(0::int, Some (10::real)), (60, Some 20)] \<noteq> []
   \<and> (300::int) < fst (1000000::int, Some (20::real))
                    - fst (last [(0::int, Some (10::real)), (60, Some 20)])
   \<and> utils_smooth (1 / 2) None 300
        [(0, Some 10), (60, Some 20), (1000000, Some 20), (1000060, Some 40)]
      = [Some 10, Some 15, Some 20, Some 30]
   \<and> utils_smooth (1 / 2) None 300
        [(0, Some 10), (60, Some 20), (1000000, Some 20), (1000060, Some 40)] ! 2
      = Some 20"
proof -
  have h: "[(0::int, Some (10::real)), (60, Some 20)] \<noteq> []
      \<and> (300::int) < fst (1000000::int, Some (20::real))
                       - fst (last [(0::int, Some (10::real)), (60, Some 20)])"
    by simp
  from h staleness_reset
    [of "[(0, Some 10), (60, Some 20)]" 300 "(1000000, Some 20)" "1 / 2" None
        "[(1000060, Some 40)]"]
  have "utils_smooth (1 / 2) None 300
          ([(0, Some 10), (60, Some 20)] @ (1000000, Some 20) # [(1000060, Some 40)])
       = utils_smooth (1 / 2) None 300 [(0, Some 10), (60, Some 20)]
         @ utils_smooth (1 / 2) None 300 ((1000000, Some 20) # [(1000060, Some 40)])"
    by blast
  then show ?thesis
    by (simp add: utils_smooth_def utils_smooth_value_def smooth_reset_stale_def Let_def)
qed

end
